theory Spec2Isabelle
  imports Main "HOL-Library.Sublist"
begin

section \<open>The Collabordinator service\<close>

text \<open>
  A shallow embedding of \<^verbatim>\<open>CollabordinatorService\<close>, a \<^verbatim>\<open>BehaviorSubject<string[]>\<close> that
  mirrors a shared list of identifiers over a WebSocket channel. The fields of the class
  are the fields of a record; every method takes the state and returns the new one.
  What the service does to the outside (console output, values handed to its observers,
  calls on a channel object) is appended, in program order, to the field \<open>trace\<close>.
\<close>

subsection \<open>Data model\<close>

text \<open>
  \<^verbatim>\<open>CollabordinatorMessage\<close>: the three properties the service reads and writes. The
  action is a string, as in the source, where the \<^verbatim>\<open>switch\<close> has no default branch.
\<close>

record CollabordinatorMessage =
  action :: string
  key :: string
  attribute :: "string list"

text \<open>
  Modelled from the spec: the class \<^verbatim>\<open>Config\<close> and its method \<^verbatim>\<open>get<string>(path)\<close>, which
  are declared in \<^verbatim>\<open>config.model\<close>. The service only looks one path up, and the lookup
  either resolves to a string or is \<^verbatim>\<open>null\<close>; a configuration is taken to be that lookup
  table.
\<close>

type_synonym Config = "string \<rightharpoonup> string"

definition get :: "Config \<Rightarrow> string \<Rightarrow> string option" where
  "get c path = c path"

text \<open>
  A \<^verbatim>\<open>WebSocketSubject\<close> is an object with identity: the \<open>n\<close>-th object made by the factory
  \<^verbatim>\<open>webSocket(url)\<close> is the number \<open>n\<close>, counted from 0.
\<close>

type_synonym channel = nat

datatype effect =
    Log string
  | Emit "string list"
  | Send channel CollabordinatorMessage
  | Complete channel
  | Open channel "string option"
  | Subscribe channel

text \<open>
  The state: \<open>getValue\<close> is the current value of the \<^verbatim>\<open>BehaviorSubject\<close>, \<open>webSocket\<close> and
  \<open>config\<close> are the private fields \<^verbatim>\<open>_webSocket\<close> and \<^verbatim>\<open>_config\<close> (\<open>None\<close> while undefined),
  \<open>channels\<close> counts the channel objects made so far.
\<close>

record service =
  getValue :: "string list"
  webSocket :: "channel option"
  config :: "Config option"
  channels :: nat
  trace :: "effect list"

text \<open>The constructor: \<^verbatim>\<open>super([])\<close>, both private fields undefined.\<close>

definition init :: service where
  "init = \<lparr>getValue = [], webSocket = None, config = None, channels = 0, trace = []\<rparr>"

subsection \<open>Array operations\<close>

text \<open>\<^verbatim>\<open>Array.prototype.indexOf\<close>: the first index holding the value, or -1.\<close>

fun indexOf :: "string list \<Rightarrow> string \<Rightarrow> int" where
  "indexOf [] v = - 1"
| "indexOf (x # xs) v =
     (if x = v then 0
      else (let i = indexOf xs v in if i = - 1 then - 1 else i + 1))"

text \<open>
  \<^verbatim>\<open>Array.prototype.splice(start, deleteCount)\<close>: a negative start counts from the end,
  the start is clamped to the array, and at most the rest of the array is deleted.
\<close>

definition splice_at :: "string list \<Rightarrow> int \<Rightarrow> nat \<Rightarrow> string list" where
  "splice_at xs start deleteCount =
     (let len = int (length xs);
          actualStart = nat (if start < 0 then max (len + start) 0 else min start len);
          actualDelete = min deleteCount (length xs - actualStart)
      in take actualStart xs @ drop (actualStart + actualDelete) xs)"

subsection \<open>Operations\<close>

text \<open>\<^verbatim>\<open>BehaviorSubject.next\<close>: store the value and hand it to the observers.\<close>

definition next_value :: "service \<Rightarrow> string list \<Rightarrow> service" where
  "next_value s v = s\<lparr>getValue := v, trace := trace s @ [Emit v]\<rparr>"

definition console_log :: "service \<Rightarrow> string \<Rightarrow> service" where
  "console_log s line = s\<lparr>trace := trace s @ [Log line]\<rparr>"

text \<open>The loop of the \<^verbatim>\<open>ADD\<close> case.\<close>

fun add_each :: "string list \<Rightarrow> string list \<Rightarrow> string list" where
  "add_each current [] = current"
| "add_each current (v # vs) =
     add_each (if indexOf current v = - 1 then current @ [v] else current) vs"

text \<open>The \<^verbatim>\<open>forEach\<close> of the \<^verbatim>\<open>REMOVE\<close> case.\<close>

fun remove_each :: "string list \<Rightarrow> string list \<Rightarrow> string list" where
  "remove_each current [] = current"
| "remove_each current (v # vs) =
     remove_each
       (let index = indexOf current v
        in if index > - 1 then splice_at current index 1 else current) vs"

definition synchronize :: "service \<Rightarrow> CollabordinatorMessage \<Rightarrow> service" where
  "synchronize s msg =
     (let current = getValue s;
          current' =
            (if action msg = ''ADD'' then add_each current (attribute msg)
             else if action msg = ''REMOVE'' then remove_each current (attribute msg)
             else if action msg = ''CLEAR'' then []
             else current)
      in next_value s current')"

definition send :: "service \<Rightarrow> channel \<Rightarrow> CollabordinatorMessage \<Rightarrow> service" where
  "send s ws msg = s\<lparr>trace := trace s @ [Send ws msg]\<rparr>"

definition add :: "service \<Rightarrow> string list \<Rightarrow> service" where
  "add s ids =
     (case webSocket s of
        Some ws \<Rightarrow> send s ws \<lparr>action = ''ADD'', key = ''vitrivr'', attribute = ids\<rparr>
      | None \<Rightarrow> console_log s ''Collabordinator service is currently not available.'')"

definition remove_ids :: "service \<Rightarrow> string list \<Rightarrow> service" where
  "remove_ids s ids =
     (case webSocket s of
        Some ws \<Rightarrow> send s ws \<lparr>action = ''REMOVE'', key = ''vitrivr'', attribute = ids\<rparr>
      | None \<Rightarrow> console_log s ''Collabordinator service is currently not available.'')"

definition clear :: "service \<Rightarrow> service" where
  "clear s =
     (case webSocket s of
        Some ws \<Rightarrow> send s ws \<lparr>action = ''CLEAR'', key = ''vitrivr'', attribute = []\<rparr>
      | None \<Rightarrow> console_log s ''Collabordinator service is currently not available.'')"

text \<open>The three callbacks handed to \<^verbatim>\<open>subscribe\<close> in \<^verbatim>\<open>connect\<close>.\<close>

definition on_error :: "service \<Rightarrow> service" where
  "on_error s =
     next_value
       (console_log s ''Error occurred while communicating with Collabordinator web service'')
       []"

definition on_complete :: "service \<Rightarrow> service" where
  "on_complete s =
     next_value (console_log s ''Connection to Collabordinator web service was closed.'') []"

definition connect :: "service \<Rightarrow> bool \<times> service" where
  "connect s =
     (case config s of
        None \<Rightarrow> (False, s)
      | Some c \<Rightarrow>
          (let s1 = (case webSocket s of
                       Some old \<Rightarrow> next_value (s\<lparr>trace := trace s @ [Complete old]\<rparr>) []
                     | None \<Rightarrow> s);
               ws = channels s1;
               s2 = s1\<lparr>webSocket := Some ws, channels := Suc ws,
                       trace := trace s1 @ [Open ws (get c ''vbs.collabordinator'')]\<rparr>;
               s3 = s2\<lparr>trace := trace s2 @ [Subscribe ws]\<rparr>
           in (True, s3)))"

definition available :: "service \<Rightarrow> bool" where
  "available s = (webSocket s \<noteq> None)"

text \<open>
  The subscription of the constructor: a configuration passes the filter when the
  address is not \<^verbatim>\<open>null\<close>; it is then stored and \<^verbatim>\<open>connect\<close> is called.
\<close>

definition on_config :: "service \<Rightarrow> Config \<Rightarrow> service" where
  "on_config s c =
     (if get c ''vbs.collabordinator'' \<noteq> None
      then snd (connect (s\<lparr>config := Some c\<rparr>))
      else s)"

subsection \<open>Runs of the service\<close>

text \<open>
  Everything that can happen to a service after its construction: a call of a public
  method, a configuration arriving, or a channel delivering a message, an error or its
  completion. A channel can only deliver to callbacks that were subscribed, so a channel
  event needs a channel that has been made; it may be a channel that \<^verbatim>\<open>connect\<close> has
  replaced since.
\<close>

datatype event =
    CallAdd "string list"
  | CallRemove "string list"
  | CallClear
  | CallConnect
  | CallAvailable
  | ConfigEmit Config
  | ChannelMessage channel CollabordinatorMessage
  | ChannelError channel
  | ChannelClose channel

fun fire :: "service \<Rightarrow> event \<Rightarrow> service option" where
  "fire s (CallAdd ids) = Some (add s ids)"
| "fire s (CallRemove ids) = Some (remove_ids s ids)"
| "fire s CallClear = Some (clear s)"
| "fire s CallConnect = Some (snd (connect s))"
| "fire s CallAvailable = Some s"
| "fire s (ConfigEmit c) = Some (on_config s c)"
| "fire s (ChannelMessage ws msg) = (if ws < channels s then Some (synchronize s msg) else None)"
| "fire s (ChannelError ws) = (if ws < channels s then Some (on_error s) else None)"
| "fire s (ChannelClose ws) = (if ws < channels s then Some (on_complete s) else None)"

fun run :: "service \<Rightarrow> event list \<Rightarrow> service option" where
  "run s [] = Some s"
| "run s (e # es) = (case fire s e of None \<Rightarrow> None | Some s' \<Rightarrow> run s' es)"

text \<open>
  The shape of the states the service can reach: the channel reference and the stored
  configuration are set together, and the channel of the service is the newest one.
\<close>

definition wired :: "service \<Rightarrow> bool" where
  "wired s =
     (case config s of
        None \<Rightarrow> webSocket s = None \<and> channels s = 0
      | Some c \<Rightarrow> get c ''vbs.collabordinator'' \<noteq> None
                 \<and> 0 < channels s \<and> webSocket s = Some (channels s - 1))"

subsection \<open>Example inputs\<close>

text \<open>
  A configuration holding an address, a message adding \<open>a\<close>, the service after that
  configuration has arrived, and the service after its channel has then delivered the
  message.
\<close>

definition example_config :: Config where
  "example_config = [''vbs.collabordinator'' \<mapsto> ''ws://host/collab'']"

definition example_ADD :: CollabordinatorMessage where
  "example_ADD = \<lparr>action = ''ADD'', key = ''vitrivr'', attribute = [''a'']\<rparr>"

definition example_connected :: service where
  "example_connected = on_config init example_config"

definition example_filled :: service where
  "example_filled = synchronize example_connected example_ADD"

section \<open>Auxiliary facts\<close>

subsection \<open>Array operations\<close>

lemma indexOf_ge: "- 1 \<le> indexOf xs v"
  by (induction xs) (auto simp: Let_def)

lemma indexOf_absent: "indexOf xs v = - 1 \<longleftrightarrow> v \<notin> set xs"
proof (induction xs)
  case Nil
  show ?case by simp
next
  case (Cons x xs)
  have "- 1 \<le> indexOf xs v" by (rule indexOf_ge)
  with Cons show ?case by (auto simp: Let_def)
qed

lemma indexOf_present: "indexOf xs v > - 1 \<longleftrightarrow> v \<in> set xs"
  using indexOf_absent [of xs v] indexOf_ge [of xs v] by linarith

lemma indexOf_bound: "indexOf xs v < int (length xs)"
  by (induction xs) (auto simp: Let_def)

lemma splice_indexOf: "v \<in> set xs \<Longrightarrow> splice_at xs (indexOf xs v) 1 = remove1 v xs"
proof (induction xs)
  case Nil
  then show ?case by simp
next
  case (Cons x xs)
  show ?case
  proof (cases "x = v")
    case True
    then show ?thesis by (simp add: splice_at_def)
  next
    case False
    with Cons.prems have mem: "v \<in> set xs" by simp
    then have ne: "indexOf xs v \<noteq> - 1" by (simp add: indexOf_absent)
    have ge: "0 \<le> indexOf xs v" using ne indexOf_ge [of xs v] by linarith
    have lt: "indexOf xs v < int (length xs)" by (rule indexOf_bound)
    obtain i where i: "indexOf xs v = int i" using ge by (metis nonneg_int_cases)
    have "splice_at (x # xs) (int i + 1) 1 = x # splice_at xs (int i) 1"
      using lt i by (auto simp: splice_at_def Let_def min_def nat_add_distrib)
    with Cons.IH [OF mem] False ne i show ?thesis by (simp add: Let_def)
  qed
qed

subsection \<open>The loops of synchronize\<close>

lemma remove_each_fold: "remove_each current vs = fold remove1 vs current"
proof (induction vs arbitrary: current)
  case Nil
  show ?case by simp
next
  case (Cons v vs)
  show ?case
  proof (cases "v \<in> set current")
    case True
    then have "indexOf current v > - 1" by (simp add: indexOf_present)
    moreover have "splice_at current (indexOf current v) 1 = remove1 v current"
      using True by (rule splice_indexOf)
    ultimately show ?thesis using Cons.IH by (simp add: Let_def del: One_nat_def)
  next
    case False
    then have "indexOf current v = - 1" by (simp add: indexOf_absent)
    then show ?thesis using False Cons.IH by (simp add: remove1_idem)
  qed
qed

lemma remove_each_absent: "set vs \<inter> set current = {} \<Longrightarrow> remove_each current vs = current"
  unfolding remove_each_fold by (induction vs) (auto simp: remove1_idem)

lemma distinct_remove_each: "distinct current \<Longrightarrow> distinct (remove_each current vs)"
  unfolding remove_each_fold by (induction vs arbitrary: current) auto

lemma remdups_snoc: "remdups (ys @ [v]) = remdups (filter (\<lambda>w. w \<noteq> v) ys) @ [v]"
  by (induction ys) auto

lemma first_seen_Cons:
  "rev (remdups (rev (v # zs))) = v # rev (remdups (rev (filter (\<lambda>w. w \<noteq> v) zs)))"
  by (simp add: remdups_snoc rev_filter)

lemma subseq_first_seen: "subseq (rev (remdups (rev xs))) xs"
proof (induction "length xs" arbitrary: xs rule: less_induct)
  case less
  show ?case
  proof (cases xs)
    case Nil
    then show ?thesis by simp
  next
    case (Cons v zs)
    let ?zs' = "filter (\<lambda>w. w \<noteq> v) zs"
    have "length ?zs' < length xs"
      using Cons by (simp add: le_imp_less_Suc)
    then have "subseq (rev (remdups (rev ?zs'))) ?zs'"
      by (rule less)
    moreover have "subseq ?zs' zs"
      by (rule subseq_filter_left)
    ultimately have "subseq (rev (remdups (rev ?zs'))) zs"
      by (rule subseq_order.trans)
    then show ?thesis
      unfolding Cons first_seen_Cons by (rule subseq_Cons2)
  qed
qed

lemma add_each_eq:
  "add_each current vs = current @ rev (remdups (rev (filter (\<lambda>v. v \<notin> set current) vs)))"
proof (induction vs arbitrary: current)
  case Nil
  show ?case by simp
next
  case (Cons v vs)
  show ?case
  proof (cases "v \<in> set current")
    case True
    then have "indexOf current v \<noteq> - 1" by (simp add: indexOf_absent)
    with True Cons.IH show ?thesis by simp
  next
    case False
    then have "add_each current (v # vs) = add_each (current @ [v]) vs"
      by (simp add: indexOf_absent)
    also have "\<dots> = (current @ [v])
        @ rev (remdups (rev (filter (\<lambda>w. w \<notin> set (current @ [v])) vs)))"
      by (rule Cons.IH)
    also have "filter (\<lambda>w. w \<notin> set (current @ [v])) vs
        = filter (\<lambda>w. w \<noteq> v) (filter (\<lambda>w. w \<notin> set current) vs)"
      by (induction vs) auto
    also have "(current @ [v]) @ rev (remdups (rev (filter (\<lambda>w. w \<noteq> v)
          (filter (\<lambda>w. w \<notin> set current) vs))))
        = current @ rev (remdups (rev (v # filter (\<lambda>w. w \<notin> set current) vs)))"
      by (simp only: first_seen_Cons append_assoc append.simps)
    also have "v # filter (\<lambda>w. w \<notin> set current) vs
        = filter (\<lambda>w. w \<notin> set current) (v # vs)"
      using False by simp
    finally show ?thesis .
  qed
qed

lemma set_add_each: "set (add_each current vs) = set current \<union> set vs"
  by (auto simp: add_each_eq)

lemma add_each_present: "set vs \<subseteq> set current \<Longrightarrow> add_each current vs = current"
proof -
  assume "set vs \<subseteq> set current"
  then have "filter (\<lambda>v. v \<notin> set current) vs = []"
    by (auto simp: filter_empty_conv)
  then show ?thesis by (simp add: add_each_eq)
qed

lemma distinct_add_each: "distinct current \<Longrightarrow> distinct (add_each current vs)"
  by (auto simp: add_each_eq)

lemma getValue_synchronize:
  "getValue (synchronize s msg) =
     (if action msg = ''ADD'' then add_each (getValue s) (attribute msg)
      else if action msg = ''REMOVE'' then remove_each (getValue s) (attribute msg)
      else if action msg = ''CLEAR'' then []
      else getValue s)"
  by (simp add: synchronize_def next_value_def Let_def)

lemma distinct_synchronize: "distinct (getValue s) \<Longrightarrow> distinct (getValue (synchronize s msg))"
  by (simp add: getValue_synchronize distinct_add_each distinct_remove_each)

lemma distinct_foldl_synchronize:
  "distinct (getValue s) \<Longrightarrow> distinct (getValue (foldl synchronize s msgs))"
  by (induction msgs arbitrary: s) (simp_all add: distinct_synchronize)

subsection \<open>Reachable states\<close>

text \<open>
  In every state the service can reach, either no configuration is known and no channel
  has been made, or the stored configuration holds an address and the channel of the
  service is the one made last.
\<close>

lemma wired_init: "wired init"
  by (simp add: wired_def init_def)

lemma wired_connect: "wired s \<Longrightarrow> wired (snd (connect s))"
  by (auto simp: wired_def connect_def next_value_def Let_def split: option.splits)

lemma wired_on_config: "wired s \<Longrightarrow> wired (on_config s c)"
  by (auto simp: wired_def on_config_def connect_def next_value_def Let_def split: option.splits)

lemma wired_fire: "wired s \<Longrightarrow> fire s e = Some s' \<Longrightarrow> wired s'"
proof (cases e)
  case CallConnect
  assume "wired s" "fire s e = Some s'"
  with CallConnect show ?thesis using wired_connect [of s] by auto
next
  case (ConfigEmit c)
  assume "wired s" "fire s e = Some s'"
  with ConfigEmit show ?thesis using wired_on_config [of s c] by auto
qed (auto simp: wired_def add_def remove_ids_def clear_def send_def console_log_def
      synchronize_def next_value_def on_error_def on_complete_def Let_def
      split: option.splits if_splits)

lemma wired_run: "wired s \<Longrightarrow> run s es = Some s' \<Longrightarrow> wired s'"
proof (induction es arbitrary: s)
  case Nil
  then show ?case by simp
next
  case (Cons e es)
  then show ?case by (auto split: option.splits dest: wired_fire)
qed

lemma reachable_wired: "run init es = Some s \<Longrightarrow> wired s"
  using wired_init by (rule wired_run)

lemma available_connect: "available s \<Longrightarrow> available (snd (connect s))"
  by (simp add: connect_def available_def Let_def split: option.splits)

lemma available_fire: "available s \<Longrightarrow> fire s e = Some s' \<Longrightarrow> available s'"
proof (cases e)
  case CallConnect
  assume "available s" "fire s e = Some s'"
  with CallConnect show ?thesis using available_connect [of s] by auto
next
  case (ConfigEmit c)
  assume a: "available s" and f: "fire s e = Some s'"
  from a have "available (s\<lparr>config := Some c\<rparr>)" by (simp add: available_def)
  then have "available (snd (connect (s\<lparr>config := Some c\<rparr>)))" by (rule available_connect)
  with a f ConfigEmit show ?thesis by (auto simp: on_config_def)
qed (auto simp: available_def add_def remove_ids_def clear_def send_def console_log_def
      on_error_def on_complete_def synchronize_def next_value_def Let_def
      split: option.splits if_splits)

lemma available_run: "available s \<Longrightarrow> run s es = Some s' \<Longrightarrow> available s'"
proof (induction es arbitrary: s)
  case Nil
  then show ?case by simp
next
  case (Cons e es)
  from Cons.prems(2) obtain s1 where f: "fire s e = Some s1" and r: "run s1 es = Some s'"
    by (auto split: option.splits)
  from Cons.prems(1) f have "available s1" by (rule available_fire)
  then show ?case using r by (rule Cons.IH)
qed

section \<open>The claims\<close>

text \<open>
  Claim C1. An inbound \<^verbatim>\<open>ADD\<close> message leaves the identifiers of the current set where they
  are and appends behind them the identifiers of the attribute list that the set does not
  hold yet: each of them once, at its first occurrence, in the order of the attribute list
  (\<open>rev (remdups (rev xs))\<close> keeps the first occurrence of every element of \<open>xs\<close>).
  Processing the same message a second time leaves the set as it is.
\<close>

theorem synchronize_ADD:
  assumes "action msg = ''ADD''"
  shows "(\<exists>new. getValue (synchronize s msg) = getValue s @ new
            \<and> new = rev (remdups (rev (filter (\<lambda>v. v \<notin> set (getValue s)) (attribute msg))))
            \<and> distinct new
            \<and> set new = set (attribute msg) - set (getValue s)
            \<and> subseq new (attribute msg))
         \<and> getValue (synchronize (synchronize s msg) msg) = getValue (synchronize s msg)"
proof -
  let ?cur = "getValue s"
  let ?new = "rev (remdups (rev (filter (\<lambda>v. v \<notin> set ?cur) (attribute msg))))"
  have val: "getValue (synchronize s msg) = add_each ?cur (attribute msg)"
    using assms by (simp add: getValue_synchronize)
  then have eq: "getValue (synchronize s msg) = ?cur @ ?new"
    by (simp only: add_each_eq)
  have d: "distinct ?new" by simp
  have st: "set ?new = set (attribute msg) - set ?cur" by auto
  have "subseq ?new (filter (\<lambda>v. v \<notin> set ?cur) (attribute msg))"
    by (rule subseq_first_seen)
  moreover have "subseq (filter (\<lambda>v. v \<notin> set ?cur) (attribute msg)) (attribute msg)"
    by (rule subseq_filter_left)
  ultimately have sub: "subseq ?new (attribute msg)"
    by (rule subseq_order.trans)
  have "getValue (synchronize (synchronize s msg) msg)
      = add_each (getValue (synchronize s msg)) (attribute msg)"
    using assms by (simp add: getValue_synchronize)
  also have "\<dots> = getValue (synchronize s msg)"
    by (rule add_each_present) (simp add: val set_add_each)
  finally have idem: "getValue (synchronize (synchronize s msg) msg) = getValue (synchronize s msg)" .
  from eq d st sub idem show ?thesis by blast
qed

text \<open>
  Claim C1 at a concrete input: the set \<open>[a]\<close> and the attribute list \<open>[b, a, b, c]\<close>.
\<close>

theorem synchronize_ADD_witness:
  "action \<lparr>action = ''ADD'', key = ''vitrivr'', attribute = [''b'', ''a'', ''b'', ''c'']\<rparr> = ''ADD''
   \<and> getValue (synchronize (init\<lparr>getValue := [''a'']\<rparr>)
        \<lparr>action = ''ADD'', key = ''vitrivr'', attribute = [''b'', ''a'', ''b'', ''c'']\<rparr>)
      = [''a'', ''b'', ''c'']"
  using synchronize_ADD [of "\<lparr>action = ''ADD'', key = ''vitrivr'', attribute = [''b'', ''a'', ''b'', ''c'']\<rparr>"
      "init\<lparr>getValue := [''a'']\<rparr>"]
  by (simp add: init_def)

text \<open>
  Claim C2. An inbound \<^verbatim>\<open>REMOVE\<close> message removes, identifier by identifier of its attribute
  list, the first occurrence of the identifier in the set (\<open>remove1\<close>, which returns the
  list unchanged when the identifier is absent). When none of the identifiers is in the set,
  the set is unchanged.
\<close>

theorem synchronize_REMOVE:
  assumes "action msg = ''REMOVE''"
  shows "getValue (synchronize s msg) = fold remove1 (attribute msg) (getValue s)
         \<and> (set (attribute msg) \<inter> set (getValue s) = {}
              \<longrightarrow> getValue (synchronize s msg) = getValue s)"
  using assms by (simp add: getValue_synchronize remove_each_fold [symmetric] remove_each_absent)

text \<open>
  Claim C2 at concrete inputs: a present and an absent identifier, and an absent one alone.
\<close>

theorem synchronize_REMOVE_witness:
  "action \<lparr>action = ''REMOVE'', key = ''vitrivr'', attribute = [''a'', ''z'']\<rparr> = ''REMOVE''
   \<and> getValue (synchronize (init\<lparr>getValue := [''a'', ''b'', ''a'']\<rparr>)
        \<lparr>action = ''REMOVE'', key = ''vitrivr'', attribute = [''a'', ''z'']\<rparr>)
      = [''b'', ''a'']
   \<and> set [''z''] \<inter> set (getValue (init\<lparr>getValue := [''a'', ''b'']\<rparr>)) = {}
   \<and> getValue (synchronize (init\<lparr>getValue := [''a'', ''b'']\<rparr>)
        \<lparr>action = ''REMOVE'', key = ''vitrivr'', attribute = [''z'']\<rparr>)
      = [''a'', ''b'']"
  using synchronize_REMOVE [of "\<lparr>action = ''REMOVE'', key = ''vitrivr'', attribute = [''a'', ''z'']\<rparr>"
      "init\<lparr>getValue := [''a'', ''b'', ''a'']\<rparr>"]
    synchronize_REMOVE [of "\<lparr>action = ''REMOVE'', key = ''vitrivr'', attribute = [''z'']\<rparr>"
      "init\<lparr>getValue := [''a'', ''b'']\<rparr>"]
  by (simp add: init_def)

text \<open>
  Claim C3. An inbound \<^verbatim>\<open>CLEAR\<close> message yields the empty set, whatever the set held before,
  and the empty set is what the observers receive.
\<close>

theorem synchronize_CLEAR:
  "action msg = ''CLEAR'' \<Longrightarrow>
     getValue (synchronize s msg) = []
     \<and> trace (synchronize s msg) = trace s @ [Emit []]"
  by (simp add: synchronize_def next_value_def)

text \<open>
  Claim C3 at a concrete input: the set \<open>[b]\<close>.
\<close>

theorem synchronize_CLEAR_witness:
  "action \<lparr>action = ''CLEAR'', key = ''vitrivr'', attribute = []\<rparr> = ''CLEAR''
   \<and> getValue (synchronize (init\<lparr>getValue := [''b'']\<rparr>)
        \<lparr>action = ''CLEAR'', key = ''vitrivr'', attribute = []\<rparr>) = []"
  using synchronize_CLEAR [of "\<lparr>action = ''CLEAR'', key = ''vitrivr'', attribute = []\<rparr>"
      "init\<lparr>getValue := [''b'']\<rparr>"]
  by simp

text \<open>
  Claim C4. Starting from the empty set, the set obtained by processing any finite sequence
  of inbound messages holds no identifier twice; and processing one message keeps a
  duplicate-free set duplicate-free. Messages with an action other than \<^verbatim>\<open>ADD\<close>,
  \<^verbatim>\<open>REMOVE\<close> and \<^verbatim>\<open>CLEAR\<close> are included: they leave the set as it is.
\<close>

theorem synchronize_no_duplicates:
  "(getValue s = [] \<longrightarrow> distinct (getValue (foldl synchronize s msgs)))
   \<and> (distinct (getValue s) \<longrightarrow> distinct (getValue (synchronize s msg)))"
  by (simp add: distinct_foldl_synchronize distinct_synchronize)

text \<open>
  Claim C4 at a concrete input: three messages processed from the initial state.
\<close>

theorem synchronize_no_duplicates_witness:
  "getValue init = []
   \<and> distinct (getValue (foldl synchronize init
        [\<lparr>action = ''ADD'', key = ''vitrivr'', attribute = [''a'', ''b'', ''a'']\<rparr>,
         \<lparr>action = ''REMOVE'', key = ''vitrivr'', attribute = [''a'']\<rparr>,
         \<lparr>action = ''ADD'', key = ''vitrivr'', attribute = [''b'', ''c'']\<rparr>]))
   \<and> getValue (foldl synchronize init
        [\<lparr>action = ''ADD'', key = ''vitrivr'', attribute = [''a'', ''b'', ''a'']\<rparr>,
         \<lparr>action = ''REMOVE'', key = ''vitrivr'', attribute = [''a'']\<rparr>,
         \<lparr>action = ''ADD'', key = ''vitrivr'', attribute = [''b'', ''c'']\<rparr>]) = [''b'', ''c'']
   \<and> distinct (getValue init)
   \<and> distinct (getValue (synchronize init
        \<lparr>action = ''ADD'', key = ''vitrivr'', attribute = [''a'', ''a'']\<rparr>))
   \<and> getValue (synchronize init
        \<lparr>action = ''ADD'', key = ''vitrivr'', attribute = [''a'', ''a'']\<rparr>) = [''a'']"
  using synchronize_no_duplicates [of init
        "[\<lparr>action = ''ADD'', key = ''vitrivr'', attribute = [''a'', ''b'', ''a'']\<rparr>,
         \<lparr>action = ''REMOVE'', key = ''vitrivr'', attribute = [''a'']\<rparr>,
         \<lparr>action = ''ADD'', key = ''vitrivr'', attribute = [''b'', ''c'']\<rparr>]"
        "\<lparr>action = ''ADD'', key = ''vitrivr'', attribute = [''a'', ''a'']\<rparr>"]
  by (simp add: init_def getValue_synchronize splice_at_def)

text \<open>
  Claim C5 as stated, refuted. After a configuration has arrived and the channel it opened
  reports an error, \<^verbatim>\<open>available()\<close> is true, not false: the error callback does not touch
  the field \<^verbatim>\<open>_webSocket\<close>.
\<close>

theorem on_error_unavailable_counterexample:
  "run init [ConfigEmit example_config, ChannelError 0] = Some (on_error example_connected)
   \<and> \<not> (available (on_error example_connected) = False)"
  by (simp add: example_connected_def example_config_def init_def on_config_def connect_def
      get_def on_error_def next_value_def console_log_def available_def Let_def)

text \<open>
  Claim C5, amended. When the error callback of a channel runs in a state the service can
  reach, the published set is reset to empty, the error is logged before that, and the
  channel reference is kept as it is, so that \<^verbatim>\<open>available()\<close> is true afterwards.
\<close>

theorem on_error_keeps_channel:
  assumes "run init es = Some s" and "fire s (ChannelError ws) = Some s'"
  shows "getValue s' = []
         \<and> trace s' = trace s @
             [Log ''Error occurred while communicating with Collabordinator web service'', Emit []]
         \<and> webSocket s' = webSocket s
         \<and> available s'"
proof -
  from assms(2) have ws: "ws < channels s" and s': "s' = on_error s"
    by (auto split: if_splits)
  from assms(1) have "wired s" by (rule reachable_wired)
  with ws have "webSocket s \<noteq> None"
    by (auto simp: wired_def split: option.splits)
  with s' show ?thesis
    by (simp add: on_error_def next_value_def console_log_def available_def)
qed

text \<open>
  Claim C5, amended, at a concrete run: a configuration arrives, the channel delivers an
  \<^verbatim>\<open>ADD\<close> of \<open>a\<close>, then reports an error.
\<close>

theorem on_error_keeps_channel_witness:
  "run init [ConfigEmit example_config, ChannelMessage 0 example_ADD] = Some example_filled
   \<and> fire example_filled (ChannelError 0) = Some (on_error example_filled)
   \<and> getValue example_filled = [''a'']
   \<and> getValue (on_error example_filled) = []
   \<and> available (on_error example_filled)"
  using on_error_keeps_channel [of "[ConfigEmit example_config, ChannelMessage 0 example_ADD]"
      example_filled 0 "on_error example_filled"]
  by (simp add: example_filled_def example_connected_def example_config_def example_ADD_def
      init_def on_config_def connect_def get_def synchronize_def next_value_def Let_def)

text \<open>
  Claim C6. In every state the service can reach in which a channel exists, \<^verbatim>\<open>connect()\<close>
  returns true, and what it does is, in this order: complete the old channel, publish the
  empty set, make a new channel object for the configured address, subscribe to it. The new
  channel, which is not the old one, becomes the channel of the service.
\<close>

theorem connect_replaces_channel:
  assumes "run init es = Some s" and "webSocket s = Some old"
  shows "\<exists>c url. config s = Some c \<and> get c ''vbs.collabordinator'' = Some url
           \<and> old < channels s
           \<and> connect s =
               (True, s\<lparr>getValue := [], webSocket := Some (channels s),
                        channels := Suc (channels s),
                        trace := trace s @ [Complete old, Emit [],
                                   Open (channels s) (Some url), Subscribe (channels s)]\<rparr>)"
proof -
  from assms(1) have "wired s" by (rule reachable_wired)
  with assms(2) obtain c url where c: "config s = Some c"
      and url: "get c ''vbs.collabordinator'' = Some url" and old: "old < channels s"
    by (auto simp: wired_def split: option.splits)
  from c url assms(2) have "connect s =
      (True, s\<lparr>getValue := [], webSocket := Some (channels s), channels := Suc (channels s),
         trace := trace s @ [Complete old, Emit [],
                    Open (channels s) (Some url), Subscribe (channels s)]\<rparr>)"
    by (simp add: connect_def next_value_def Let_def)
  with c url old show ?thesis by blast
qed

text \<open>
  Claim C6 at a concrete run: \<^verbatim>\<open>connect()\<close> after a configuration has arrived and an
  identifier has been added.
\<close>

theorem connect_replaces_channel_witness:
  "run init [ConfigEmit example_config, ChannelMessage 0 example_ADD] = Some example_filled
   \<and> webSocket example_filled = Some 0
   \<and> connect example_filled =
       (True, \<lparr>getValue = [], webSocket = Some 1, config = Some example_config, channels = 2,
          trace = [Open 0 (Some ''ws://host/collab''), Subscribe 0, Emit [''a''],
                   Complete 0, Emit [], Open 1 (Some ''ws://host/collab''), Subscribe 1]\<rparr>)"
  using connect_replaces_channel [of "[ConfigEmit example_config, ChannelMessage 0 example_ADD]"
      example_filled 0]
  by (simp add: example_filled_def example_connected_def example_config_def example_ADD_def
      init_def on_config_def connect_def get_def synchronize_def next_value_def Let_def)

text \<open>
  Claim C7. With no configuration known, \<^verbatim>\<open>connect()\<close> returns false and the state,
  trace included, is the one before the call.
\<close>

theorem connect_without_config:
  "config s = None \<Longrightarrow> connect s = (False, s)"
  by (simp add: connect_def)

text \<open>
  Claim C7 at a concrete input: the freshly constructed service.
\<close>

theorem connect_without_config_witness:
  "config init = None \<and> connect init = (False, init)"
  using connect_without_config [of init] by (simp add: init_def)

text \<open>
  Claim C8. \<^verbatim>\<open>add\<close>, \<^verbatim>\<open>remove\<close> and \<^verbatim>\<open>clear\<close> never change the published set. With a
  channel, the whole effect of the call is one message sent on that channel; without one,
  the whole effect is one line on the console (nothing is sent, nothing else changes).
\<close>

theorem mutation_calls_only_send:
  "getValue (add s ids) = getValue s
   \<and> getValue (remove_ids s ids) = getValue s
   \<and> getValue (clear s) = getValue s
   \<and> (webSocket s = Some ws \<longrightarrow>
        add s ids = s\<lparr>trace := trace s @
            [Send ws \<lparr>action = ''ADD'', key = ''vitrivr'', attribute = ids\<rparr>]\<rparr>
        \<and> remove_ids s ids = s\<lparr>trace := trace s @
            [Send ws \<lparr>action = ''REMOVE'', key = ''vitrivr'', attribute = ids\<rparr>]\<rparr>
        \<and> clear s = s\<lparr>trace := trace s @
            [Send ws \<lparr>action = ''CLEAR'', key = ''vitrivr'', attribute = []\<rparr>]\<rparr>)
   \<and> (webSocket s = None \<longrightarrow>
        add s ids = s\<lparr>trace := trace s @
            [Log ''Collabordinator service is currently not available.'']\<rparr>
        \<and> remove_ids s ids = add s ids
        \<and> clear s = add s ids)"
  by (simp add: add_def remove_ids_def clear_def send_def console_log_def
      split: option.splits)

text \<open>
  Claim C8 at concrete inputs: calls on a connected service holding \<open>[a]\<close>, and a call
  on the freshly constructed service.
\<close>

theorem mutation_calls_only_send_witness:
  "webSocket example_filled = Some 0
   \<and> getValue example_filled = [''a'']
   \<and> getValue (add example_filled [''b'']) = [''a'']
   \<and> getValue (remove_ids example_filled [''a'']) = [''a'']
   \<and> getValue (clear example_filled) = [''a'']
   \<and> trace (remove_ids example_filled [''a'']) = trace example_filled @
        [Send 0 \<lparr>action = ''REMOVE'', key = ''vitrivr'', attribute = [''a'']\<rparr>]
   \<and> webSocket init = None
   \<and> add init [''b''] =
        init\<lparr>trace := [Log ''Collabordinator service is currently not available.'']\<rparr>"
  using mutation_calls_only_send [of example_filled "[''a'']" 0]
    mutation_calls_only_send [of example_filled "[''b'']" 0]
    mutation_calls_only_send [of init "[''b'']"]
  by (simp add: example_filled_def example_connected_def example_config_def example_ADD_def
      init_def on_config_def connect_def get_def synchronize_def next_value_def Let_def)

text \<open>
  Claim C9 as stated, refuted. In a reachable state with the published set \<open>[a]\<close>, the
  error callback, the completion callback and \<^verbatim>\<open>connect()\<close> each change the published set,
  and none of them goes through \<^verbatim>\<open>synchronize\<close>.
\<close>

theorem set_changed_outside_synchronize_counterexample:
  "run init [ConfigEmit example_config, ChannelMessage 0 example_ADD] = Some example_filled
   \<and> getValue example_filled = [''a'']
   \<and> fire example_filled (ChannelError 0) = Some (on_error example_filled)
   \<and> getValue (on_error example_filled) \<noteq> getValue example_filled
   \<and> fire example_filled (ChannelClose 0) = Some (on_complete example_filled)
   \<and> getValue (on_complete example_filled) \<noteq> getValue example_filled
   \<and> fire example_filled CallConnect = Some (snd (connect example_filled))
   \<and> getValue (snd (connect example_filled)) \<noteq> getValue example_filled"
  by (simp add: example_filled_def example_connected_def example_config_def example_ADD_def
      init_def on_config_def connect_def get_def synchronize_def next_value_def Let_def
      on_error_def on_complete_def console_log_def)

text \<open>
  Claim C9, amended. A received message is processed by \<^verbatim>\<open>synchronize\<close>. Apart from that,
  the published set is only ever reset to empty: by the error and the completion callback
  of a channel, and by \<^verbatim>\<open>connect()\<close> when a channel exists and a configuration is known
  (called directly or for an arriving configuration that holds an address). Every other
  operation leaves the published set as it is.
\<close>

theorem set_changed_only_by_message_or_reset:
  assumes "fire s e = Some s'"
  shows "case e of
           ChannelMessage ws msg \<Rightarrow> s' = synchronize s msg
         | ChannelError ws \<Rightarrow> getValue s' = []
         | ChannelClose ws \<Rightarrow> getValue s' = []
         | CallConnect \<Rightarrow>
             getValue s' = (if config s \<noteq> None \<and> webSocket s \<noteq> None then [] else getValue s)
         | ConfigEmit c \<Rightarrow>
             getValue s' = (if get c ''vbs.collabordinator'' \<noteq> None \<and> webSocket s \<noteq> None
                            then [] else getValue s)
         | _ \<Rightarrow> getValue s' = getValue s"
  using assms
  by (cases e)
    (auto simp: add_def remove_ids_def clear_def send_def console_log_def on_error_def
      on_complete_def on_config_def connect_def next_value_def Let_def
      split: option.splits if_splits)

text \<open>
  Claim C9, amended, at concrete inputs: a completion, a call of \<^verbatim>\<open>add\<close>, and
  \<^verbatim>\<open>connect()\<close> on the freshly constructed service.
\<close>

theorem set_changed_only_by_message_or_reset_witness:
  "fire example_filled (ChannelClose 0) = Some (on_complete example_filled)
   \<and> getValue (on_complete example_filled) = []
   \<and> fire example_filled (CallAdd [''b'']) = Some (add example_filled [''b''])
   \<and> getValue (add example_filled [''b'']) = getValue example_filled
   \<and> fire init CallConnect = Some init"
  using set_changed_only_by_message_or_reset [of example_filled "ChannelClose 0" "on_complete example_filled"]
    set_changed_only_by_message_or_reset [of example_filled "CallAdd [''b'']" "add example_filled [''b'']"]
    set_changed_only_by_message_or_reset [of init CallConnect init]
  by (simp add: example_filled_def example_connected_def example_config_def example_ADD_def
      init_def on_config_def connect_def get_def synchronize_def next_value_def Let_def)

text \<open>
  Claim C10. When \<^verbatim>\<open>connect()\<close> returns true, \<^verbatim>\<open>available()\<close> is true afterwards; and once
  \<^verbatim>\<open>available()\<close> is true it is true after every further sequence of calls, configurations
  and channel events, since none of them resets the channel reference.
\<close>

theorem available_never_reset:
  "(fst (connect s) \<longrightarrow> available (snd (connect s)))
   \<and> (available s \<and> run s es = Some s' \<longrightarrow> available s')"
proof -
  have "fst (connect s) \<longrightarrow> available (snd (connect s))"
    by (simp add: connect_def available_def Let_def split: option.splits)
  moreover have "available s \<and> run s es = Some s' \<longrightarrow> available s'"
    using available_run [of s es s'] by blast
  ultimately show ?thesis by blast
qed

text \<open>
  Claim C10 at a concrete run: errors, a completion, a reconnect and a call of
  \<^verbatim>\<open>clear\<close> after the first connect.
\<close>

theorem available_never_reset_witness:
  "\<not> available init
   \<and> fst (connect (init\<lparr>config := Some example_config\<rparr>))
   \<and> available (snd (connect (init\<lparr>config := Some example_config\<rparr>)))
   \<and> available example_connected
   \<and> run example_connected
        [ChannelError 0, ChannelClose 0, CallConnect, CallClear, ChannelError 1, CallAvailable]
      = Some \<lparr>getValue = [], webSocket = Some 1, config = Some example_config, channels = 2,
          trace = [Open 0 (Some ''ws://host/collab''), Subscribe 0,
            Log ''Error occurred while communicating with Collabordinator web service'', Emit [],
            Log ''Connection to Collabordinator web service was closed.'', Emit [],
            Complete 0, Emit [], Open 1 (Some ''ws://host/collab''), Subscribe 1,
            Send 1 \<lparr>action = ''CLEAR'', key = ''vitrivr'', attribute = []\<rparr>,
            Log ''Error occurred while communicating with Collabordinator web service'', Emit []]\<rparr>
   \<and> available \<lparr>getValue = [], webSocket = Some 1, config = Some example_config, channels = 2,
          trace = [Open 0 (Some ''ws://host/collab''), Subscribe 0,
            Log ''Error occurred while communicating with Collabordinator web service'', Emit [],
            Log ''Connection to Collabordinator web service was closed.'', Emit [],
            Complete 0, Emit [], Open 1 (Some ''ws://host/collab''), Subscribe 1,
            Send 1 \<lparr>action = ''CLEAR'', key = ''vitrivr'', attribute = []\<rparr>,
            Log ''Error occurred while communicating with Collabordinator web service'', Emit []]\<rparr>"
  using available_never_reset [of "init\<lparr>config := Some example_config\<rparr>"]
    available_never_reset [of example_connected
      "[ChannelError 0, ChannelClose 0, CallConnect, CallClear, ChannelError 1, CallAvailable]"]
  by (simp add: example_connected_def example_config_def
      init_def on_config_def connect_def get_def next_value_def Let_def available_def
      on_error_def on_complete_def console_log_def clear_def send_def)

end
